theory Spec2Isabelle
  imports Complex_Main
begin

section \<open>Strings and the file name of an event\<close>

text \<open>
  A JavaScript string is a sequence of code units. The model takes the code units
  U+0000 .. U+00FF, which is what an Isabelle \<open>char\<close> holds. On that range
  \<open>String.prototype.toLowerCase\<close> maps \<open>A..Z\<close> to \<open>a..z\<close> and the
  capital letters U+00C0 .. U+00DE (all but the multiplication sign U+00D7) to the letter
  32 places further; every other code unit stays.
\<close>

definition lowerChar :: "char \<Rightarrow> char" where
  "lowerChar c =
     (let n = (of_char c :: nat)
      in if (65 \<le> n \<and> n \<le> 90) \<or> (192 \<le> n \<and> n \<le> 222 \<and> n \<noteq> 215)
         then char_of (n + 32) else c)"

definition toLowerCase :: "string \<Rightarrow> string" where
  "toLowerCase s = map lowerChar s"

text \<open>The character class \<open>[a-z0-9]\<close> of the regular expression.\<close>

definition isAlnum :: "char \<Rightarrow> bool" where
  "isAlnum c =
     (let n = (of_char c :: nat)
      in (97 \<le> n \<and> n \<le> 122) \<or> (48 \<le> n \<and> n \<le> 57))"

definition dash :: char where
  "dash = CHR ''-''"

text \<open>
  \<open>.replace(/[^a-z0-9]+/g, "-")\<close>: scanning from the left, every match of the greedy
  pattern (a maximal run of characters outside the class) is replaced by one \<open>-\<close>.
\<close>

function replaceNonAlnum :: "string \<Rightarrow> string" where
  "replaceNonAlnum [] = []"
| "replaceNonAlnum (c # cs) =
     (if isAlnum c then c # replaceNonAlnum cs
      else dash # replaceNonAlnum (dropWhile (\<lambda>x. \<not> isAlnum x) cs))"
  by pat_completeness auto
termination
  by (relation "measure length") (auto simp: le_imp_less_Suc length_dropWhile_le)

text \<open>
  \<open>.replace(/^-|-$/g, "")\<close>: the first alternative matches a \<open>-\<close> at index 0 only, the
  second a \<open>-\<close> that is the last character; the global replace removes the first match and
  goes on behind it, so at most one character goes at each end.
\<close>

definition stripEdgeDashes :: "string \<Rightarrow> string" where
  "stripEdgeDashes s =
     (let t = (case s of [] \<Rightarrow> [] | c # cs \<Rightarrow> if c = dash then cs else s)
      in if t \<noteq> [] \<and> last t = dash then butlast t else t)"

definition sanitizeEventName :: "string \<Rightarrow> string" where
  "sanitizeEventName eventName =
     stripEdgeDashes (replaceNonAlnum (toLowerCase eventName))"

subsection \<open>The derivation as the specification words it\<close>

text \<open>
  "Lower-cased, non-alphanumeric runs collapsed to a single separator, leading/trailing
  separators trimmed": a second definition, written after these words and not after the
  regular expressions. \<open>collapseRuns inRun\<close> walks the string and emits one separator when
  a run of non-alphanumeric characters begins; \<open>trimSeparators\<close> removes every separator
  at either end.
\<close>

fun collapseRuns :: "bool \<Rightarrow> string \<Rightarrow> string" where
  "collapseRuns inRun [] = []"
| "collapseRuns inRun (c # cs) =
     (if isAlnum c then c # collapseRuns False cs
      else if inRun then collapseRuns True cs
      else dash # collapseRuns True cs)"

definition trimSeparators :: "string \<Rightarrow> string" where
  "trimSeparators s = rev (dropWhile (\<lambda>c. c = dash) (rev (dropWhile (\<lambda>c. c = dash) s)))"

definition safeNameSpec :: "string \<Rightarrow> string" where
  "safeNameSpec eventName = trimSeparators (collapseRuns False (toLowerCase eventName))"

text \<open>No two separators stand side by side.\<close>

fun singleSeparators :: "string \<Rightarrow> bool" where
  "singleSeparators (a # b # cs) = (\<not> (a = dash \<and> b = dash) \<and> singleSeparators (b # cs))"
| "singleSeparators _ = True"

text \<open>
  The shape of what the first replace returns: letters, digits and separators, every
  separator followed by a letter or digit or by the end of the string.
\<close>

fun dashThenAlnum :: "string \<Rightarrow> bool" where
  "dashThenAlnum [] = True"
| "dashThenAlnum (c # cs) =
     ((isAlnum c \<or> (c = dash \<and> (cs = [] \<or> isAlnum (hd cs)))) \<and> dashThenAlnum cs)"

section \<open>The best-lap tracker\<close>

text \<open>
  The values are typed as the TypeScript interfaces declare them. A \<open>number\<close> that
  reaches the tracker comes out of \<open>JSON.parse\<close>: a finite double or, for a literal out
  of range such as \<open>1e400\<close>, an infinity, never \<open>NaN\<close>. The tracker only tests numbers
  for zero and compares them, which on finite doubles is the order of the rationals. Clock
  readings (\<open>Date.now()\<close>) are whole milliseconds. Field names that two interfaces share
  carry a prefix in the second one.
\<close>

datatype number = NegInfinity | Finite rat | Infinity

instantiation number :: linorder
begin

definition less_eq_number :: "number \<Rightarrow> number \<Rightarrow> bool" where
  "less_eq_number a b =
     (case a of
        NegInfinity \<Rightarrow> True
      | Finite x \<Rightarrow> (case b of NegInfinity \<Rightarrow> False | Finite y \<Rightarrow> x \<le> y | Infinity \<Rightarrow> True)
      | Infinity \<Rightarrow> b = Infinity)"

definition less_number :: "number \<Rightarrow> number \<Rightarrow> bool" where
  "less_number a b = (a \<le> b \<and> \<not> b \<le> (a::number))"

instance
  by standard (auto simp: less_eq_number_def less_number_def split: number.splits)

end

text \<open>A JSON value, as \<open>JSON.parse\<close> returns it; the members of an object in the order
  of the text.\<close>

datatype json =
    JNull
  | JBool bool
  | JNum number
  | JStr string
  | JArr "json list"
  | JObj "(string \<times> json) list"

record LapDataStructure =
  lapTime :: number
  sectorTimes :: "number list"
  isValid :: bool

record RawSimulatorData =
  simNum :: number
  pilot_name :: string
  car :: string
  track :: string
  lapData :: LapDataStructure
  currentLap :: number
  laps :: number
  speedNow :: number
  rpm :: number
  maxRpm :: number
  gear :: number
  gas :: number
  brake :: number
  fuel :: number
  maxFuel :: number
  position :: number
  sessionTimeLeft :: number
  bestLap :: "number option"
  bestTime :: "number option"
  event :: "string option"
  carData :: "(string \<times> json) list option"

text \<open>
  A record of a table. Its two numbers are \<open>None\<close> where the value is \<open>null\<close>: that
  is what \<open>JSON.parse\<close> reads back where \<open>JSON.stringify\<close> has written an infinity.
\<close>

record BestLapRecord =
  pilotName :: string
  bestLapTime :: "number option"
  rec_car :: string
  rec_track :: string
  rec_timestamp :: string
  rec_simNum :: "number option"

text \<open>
  \<open>pilots\<close> holds the entries the object itself has. The object is a plain one, so a
  read \<open>pilots[name]\<close> that finds no entry goes on to \<open>Object.prototype\<close>
  (\<open>readPilot\<close> below).
\<close>

record EventData =
  eventName :: string
  createdAt :: string
  lastUpdated :: string
  pilots :: "string \<rightharpoonup> BestLapRecord"

text \<open>An entry of \<open>lastProcessedLap\<close>.\<close>

record ledgerEntry =
  lap :: number
  timestamp :: int

text \<open>
  What the closure passed to \<open>setTimeout\<close> in \<open>saveEventData\<close> holds: the time it is
  due, and the captured \<open>filename\<close>, \<open>eventName\<close> and \<open>data\<close> (a reference to the
  table object, not a copy).
\<close>

record timer =
  due :: int
  filename :: string
  forEvent :: string
  dataRef :: nat

text \<open>
  The module state. Tables are JavaScript objects: the cache and the timer closures hold
  references into \<open>heap\<close>, and \<open>processBestLap\<close> writes a table in place.
  \<open>pendingWrites\<close> maps a file name to a timeout id; \<open>timers\<close> are the timeouts the
  runtime has armed, in the order they were created. \<open>writing\<close> holds the timer callbacks
  that have started and not ended, by timeout id: the callback is waiting for \<open>mkdir\<close>
  (\<open>None\<close>) or for \<open>writeFile\<close> (the table it has serialized). \<open>disk\<close> maps a file
  name (without directory and \<open>.json\<close>) to the table its content parses to, and has no
  entry where the file is missing or does not parse; \<open>fsWrites\<close> lists the calls of
  \<open>fs.writeFile\<close> made by timer callbacks, each with the file name and the table that
  was serialized.
\<close>

record tracker =
  heap :: "nat \<Rightarrow> EventData"
  nextRef :: nat
  eventCache :: "string \<rightharpoonup> nat"
  pendingWrites :: "string \<rightharpoonup> nat"
  timers :: "(nat \<times> timer) list"
  nextTimer :: nat
  writing :: "nat \<rightharpoonup> timer \<times> EventData option"
  lastProcessedLap :: "string \<rightharpoonup> ledgerEntry"
  disk :: "string \<rightharpoonup> EventData"
  fsWrites :: "(string \<times> EventData) list"

definition WRITE_DEBOUNCE_MS :: int where
  "WRITE_DEBOUNCE_MS = 5000"

definition MIN_PROCESS_INTERVAL_MS :: int where
  "MIN_PROCESS_INTERVAL_MS = 5000"

text \<open>
  What a table is after \<open>JSON.stringify\<close> and \<open>JSON.parse\<close>: an infinite number has
  become \<open>null\<close>, everything else is as it was.
\<close>

definition finiteOrNull :: "number option \<Rightarrow> number option" where
  "finiteOrNull n = (case n of Some (Finite q) \<Rightarrow> Some (Finite q) | _ \<Rightarrow> None)"

definition recordViaJSON :: "BestLapRecord \<Rightarrow> BestLapRecord" where
  "recordViaJSON r =
     r\<lparr>bestLapTime := finiteOrNull (bestLapTime r), rec_simNum := finiteOrNull (rec_simNum r)\<rparr>"

definition viaJSON :: "EventData \<Rightarrow> EventData" where
  "viaJSON t = t\<lparr>pilots := (\<lambda>k. map_option recordViaJSON (pilots t k))\<rparr>"

text \<open>A new object on the heap (an object literal, or the result of \<open>JSON.parse\<close>).\<close>

definition allocate :: "EventData \<Rightarrow> tracker \<Rightarrow> nat \<times> tracker" where
  "allocate d st =
     (nextRef st, st\<lparr>heap := (heap st)(nextRef st := d), nextRef := nextRef st + 1\<rparr>)"

definition clearTimeout :: "nat \<Rightarrow> tracker \<Rightarrow> tracker" where
  "clearTimeout tid st = st\<lparr>timers := filter (\<lambda>(i, tm). i \<noteq> tid) (timers st)\<rparr>"

definition setTimeout :: "timer \<Rightarrow> tracker \<Rightarrow> nat \<times> tracker" where
  "setTimeout tm st =
     (nextTimer st,
      st\<lparr>timers := timers st @ [(nextTimer st, tm)], nextTimer := nextTimer st + 1\<rparr>)"

text \<open>
  \<open>loadEventData\<close> in its two parts. What runs at the call: the look into the cache,
  which either has the table or leaves the call waiting for \<open>fs.readFile\<close>. What runs
  when that wait is over: the file, as it is then, is parsed into a new object and put in
  the cache, whatever the cache holds by then; \<open>None\<close> is the source's \<open>null\<close>.
\<close>

datatype loading = Resident nat | Reading

definition loadEventData_start :: "string \<Rightarrow> tracker \<Rightarrow> loading" where
  "loadEventData_start evName st =
     (case eventCache st evName of
        Some r \<Rightarrow> Resident r
      | None \<Rightarrow> Reading)"

definition loadEventData_done :: "string \<Rightarrow> loading \<Rightarrow> tracker \<Rightarrow> nat option \<times> tracker" where
  "loadEventData_done evName l st =
     (case l of
        Resident r \<Rightarrow> (Some r, st)
      | Reading \<Rightarrow>
          (case disk st (sanitizeEventName evName) of
             None \<Rightarrow> (None, st)
           | Some content \<Rightarrow>
               (let (r, st1) = allocate content st
                in (Some r, st1\<lparr>eventCache := (eventCache st1)(evName \<mapsto> r)\<rparr>))))"

text \<open>\<open>saveEventData\<close>, called at time \<open>now\<close> with a reference to the table. The
  function awaits nothing: it runs from its first line to its last.\<close>

definition saveEventData :: "int \<Rightarrow> string \<Rightarrow> nat \<Rightarrow> tracker \<Rightarrow> tracker" where
  "saveEventData now evName data st =
     (let st1 = st\<lparr>eventCache := (eventCache st)(evName \<mapsto> data)\<rparr>;
          fname = sanitizeEventName evName;
          st2 = (case pendingWrites st1 fname of
                   Some tid \<Rightarrow> clearTimeout tid st1
                 | None \<Rightarrow> st1);
          (timeoutId, st3) =
             setTimeout \<lparr>due = now + WRITE_DEBOUNCE_MS, filename = fname,
                         forEvent = evName, dataRef = data\<rparr> st2
      in st3\<lparr>pendingWrites := (pendingWrites st3)(fname \<mapsto> timeoutId)\<rparr>)"

text \<open>
  The callback of a timer, in its three parts. \<open>timerFires\<close>: the event loop takes an
  armed timer and the callback starts \<open>mkdir\<close>. \<open>directoryReady\<close>: \<open>mkdir\<close> is over
  (a failure is logged and ignored); the table, as it is now, is serialized and
  \<open>fs.writeFile\<close> starts. \<open>writeSettles\<close>: \<open>writeFile\<close> is over; if it succeeded
  (\<open>ok\<close>) the file holds what was serialized and \<open>pendingWrites.delete(filename)\<close>
  removes the entry of the file, whatever timeout id it holds by then; a failure is
  logged and leaves the entry. Between the parts other callbacks may run.
\<close>

definition timerFires :: "nat \<times> timer \<Rightarrow> tracker \<Rightarrow> tracker" where
  "timerFires x st =
     st\<lparr>timers := filter (\<lambda>(i, tm). i \<noteq> fst x) (timers st),
        writing := (writing st)(fst x \<mapsto> (snd x, None))\<rparr>"

definition directoryReady :: "nat \<Rightarrow> tracker \<Rightarrow> tracker" where
  "directoryReady tid st =
     (case writing st tid of
        Some (tm, None) \<Rightarrow>
          st\<lparr>writing := (writing st)(tid \<mapsto> (tm, Some (heap st (dataRef tm)))),
             fsWrites := fsWrites st @ [(filename tm, heap st (dataRef tm))]\<rparr>
      | _ \<Rightarrow> st)"

definition writeSettles :: "bool \<Rightarrow> nat \<Rightarrow> tracker \<Rightarrow> tracker" where
  "writeSettles ok tid st =
     (case writing st tid of
        Some (tm, Some content) \<Rightarrow>
          (let st1 = st\<lparr>writing := (writing st)(tid := None)\<rparr>
           in if ok
              then st1\<lparr>disk := (disk st1)(filename tm \<mapsto> viaJSON content),
                       pendingWrites := (pendingWrites st1)(filename tm := None)\<rparr>
              else st1)
      | _ \<Rightarrow> st)"

text \<open>A callback that nothing interrupts: its three parts one after the other.\<close>

definition fireTimer :: "bool \<Rightarrow> nat \<times> timer \<Rightarrow> tracker \<Rightarrow> tracker" where
  "fireTimer ok x st = writeSettles ok (fst x) (directoryReady (fst x) (timerFires x st))"

text \<open>
  The event loop up to time \<open>t\<close> when nothing else happens meanwhile: every armed timer
  that is due by then runs, earliest first (timers due at the same time in the order they
  were created), each callback to its end. \<open>ok\<close> tells for each timeout id whether its
  write succeeds.
\<close>

definition dueTimers :: "int \<Rightarrow> tracker \<Rightarrow> (nat \<times> timer) list" where
  "dueTimers t st = sort_key (\<lambda>x. due (snd x)) (filter (\<lambda>x. due (snd x) \<le> t) (timers st))"

definition runTimers :: "(nat \<Rightarrow> bool) \<Rightarrow> int \<Rightarrow> tracker \<Rightarrow> tracker" where
  "runTimers ok t st = foldl (\<lambda>s x. fireTimer (ok (fst x)) x s) st (dueTimers t st)"

text \<open>\<open>data.event || "default-event"\<close>: the default also stands in for the empty string.\<close>

definition eventNameOf :: "RawSimulatorData \<Rightarrow> string" where
  "eventNameOf data =
     (case event data of
        Some e \<Rightarrow> if e \<noteq> [] then e else ''default-event''
      | None \<Rightarrow> ''default-event'')"

text \<open>\<open>data.bestLap || data.bestTime\<close>: the first operand when it is truthy (present and
  not 0), else the second.\<close>

definition candidate :: "RawSimulatorData \<Rightarrow> number option" where
  "candidate data =
     (case bestLap data of
        Some x \<Rightarrow> if x \<noteq> Finite 0 then Some x else bestTime data
      | None \<Rightarrow> bestTime data)"

text \<open>The candidate as the specification words it: \<open>bestLap\<close> if present, else
  \<open>bestTime\<close>.\<close>

definition preferredLap :: "RawSimulatorData \<Rightarrow> number option" where
  "preferredLap data =
     (case bestLap data of
        Some x \<Rightarrow> Some x
      | None \<Rightarrow> bestTime data)"

definition pilotKeyOf :: "RawSimulatorData \<Rightarrow> string" where
  "pilotKeyOf data = eventNameOf data @ '':'' @ pilot_name data"

text \<open>The throttle test: \<open>lastProcessed\<close> is there, it is recent, and its \<open>lap\<close> is
  strictly equal to \<open>data.bestLap\<close>.\<close>

definition isThrottled :: "int \<Rightarrow> ledgerEntry option \<Rightarrow> RawSimulatorData \<Rightarrow> bool" where
  "isThrottled now lastProcessed data =
     (case lastProcessed of
        None \<Rightarrow> False
      | Some lp \<Rightarrow> now - timestamp lp < MIN_PROCESS_INTERVAL_MS \<and> Some (lap lp) = bestLap data)"

text \<open>
  The readings of the clock during one call of \<open>processBestLap\<close>: \<open>Date.now()\<close>, the
  four \<open>new Date().toISOString()\<close> in the order of the source, and the time of the event
  loop when \<open>saveEventData\<close> arms its timer.
\<close>

record clock =
  dateNow :: int
  isoCreatedAt :: string
  isoLastUpdatedNew :: string
  isoTimestamp :: string
  isoLastUpdated :: string
  saveTime :: int

text \<open>
  The read \<open>eventData.pilots[pilotName]\<close>. \<open>pilots\<close> is a plain object (an object
  literal or the result of \<open>JSON.parse\<close>), so a name the object has no entry for is
  looked up in \<open>Object.prototype\<close>: for its twelve property names the read yields a
  function, or the prototype itself for \<open>__proto__\<close>, and not \<open>undefined\<close>.
\<close>

definition objectPrototypeKeys :: "string list" where
  "objectPrototypeKeys =
     [''constructor'', ''__defineGetter__'', ''__defineSetter__'', ''hasOwnProperty'',
      ''__lookupGetter__'', ''__lookupSetter__'', ''isPrototypeOf'', ''propertyIsEnumerable'',
      ''toString'', ''valueOf'', ''__proto__'', ''toLocaleString'']"

datatype pilotEntry = Undefined | Own BestLapRecord | Inherited

definition readPilot :: "(string \<rightharpoonup> BestLapRecord) \<Rightarrow> string \<Rightarrow> pilotEntry" where
  "readPilot ps name =
     (case ps name of
        Some r \<Rightarrow> Own r
      | None \<Rightarrow> if name \<in> set objectPrototypeKeys then Inherited else Undefined)"

text \<open>\<open>bestLapTime < existingRecord.bestLapTime\<close>: a \<open>null\<close> on the right counts as 0;
  for an inherited value the right side is \<open>undefined\<close> and the comparison is false.\<close>

definition shouldUpdate :: "number \<Rightarrow> pilotEntry \<Rightarrow> bool" where
  "shouldUpdate lapValue existingRecord =
     (case existingRecord of
        Undefined \<Rightarrow> True
      | Own r \<Rightarrow> (case bestLapTime r of Some b \<Rightarrow> lapValue < b | None \<Rightarrow> lapValue < Finite 0)
      | Inherited \<Rightarrow> False)"

text \<open>The branch a call of \<open>processBestLap\<close> ends in: the early return for a missing or
  non-positive value, the throttle's early return, the update, or "not better".\<close>

datatype outcome = NoCandidate | Throttled | Updated | NotBetter

definition newRecord :: "clock \<Rightarrow> RawSimulatorData \<Rightarrow> number \<Rightarrow> BestLapRecord" where
  "newRecord clk data lapValue =
     \<lparr>pilotName = pilot_name data, bestLapTime = Some lapValue, rec_car = car data,
      rec_track = track data, rec_timestamp = isoTimestamp clk,
      rec_simNum = Some (simNum data)\<rparr>"

text \<open>
  \<open>processBestLap\<close> in its two parts, as the source runs it: the server calls the
  function and does not await it. \<open>processBestLap_start\<close> is what runs at the call, up
  to \<open>await loadEventData(eventName)\<close>: the call has returned, or it is suspended with
  its sample, its lap value and what \<open>loadEventData\<close> waits for.
  \<open>processBestLap_resume\<close> is what runs when the wait is over, from the end of
  \<open>loadEventData\<close> to the end of the function; \<open>saveEventData\<close> awaits nothing, so
  this part is not interrupted. Between the two parts other calls and timer callbacks may
  run.
\<close>

record suspended =
  sus_clock :: clock
  sus_data :: RawSimulatorData
  sus_lap :: number
  sus_load :: loading

datatype started = Returned outcome | Awaiting suspended

definition processBestLap_start :: "clock \<Rightarrow> RawSimulatorData \<Rightarrow> tracker \<Rightarrow> started \<times> tracker" where
  "processBestLap_start clk data st =
     (let evName = eventNameOf data in
      case candidate data of
        None \<Rightarrow> (Returned NoCandidate, st)
      | Some lapValue \<Rightarrow>
          if lapValue = Finite 0 \<or> lapValue \<le> Finite 0 then (Returned NoCandidate, st)
          else
            let pilotKey = pilotKeyOf data;
                now = dateNow clk
            in if isThrottled now (lastProcessedLap st pilotKey) data
               then (Returned Throttled, st)
               else
                 let st1 = st\<lparr>lastProcessedLap :=
                              (lastProcessedLap st)(pilotKey \<mapsto> \<lparr>lap = lapValue, timestamp = now\<rparr>)\<rparr>
                 in (Awaiting \<lparr>sus_clock = clk, sus_data = data, sus_lap = lapValue,
                               sus_load = loadEventData_start evName st1\<rparr>, st1))"

definition processBestLap_resume :: "suspended \<Rightarrow> tracker \<Rightarrow> outcome \<times> tracker" where
  "processBestLap_resume s st =
     (let clk = sus_clock s;
          data = sus_data s;
          lapValue = sus_lap s;
          evName = eventNameOf data;
          (loaded, st2) = loadEventData_done evName (sus_load s) st;
          (ref, st3) =
             (case loaded of
                Some r \<Rightarrow> (r, st2)
              | None \<Rightarrow>
                  allocate \<lparr>eventName = evName, createdAt = isoCreatedAt clk,
                            lastUpdated = isoLastUpdatedNew clk, pilots = Map.empty\<rparr> st2);
          eventData = heap st3 ref;
          existingRecord = readPilot (pilots eventData) (pilot_name data)
      in if shouldUpdate lapValue existingRecord
         then
           let updated = eventData
                 \<lparr>pilots := (pilots eventData)(pilot_name data \<mapsto> newRecord clk data lapValue),
                  lastUpdated := isoLastUpdated clk\<rparr>;
               st4 = st3\<lparr>heap := (heap st3)(ref := updated)\<rparr>
           in (Updated, saveEventData (saveTime clk) evName ref st4)
         else (NotBetter, st3))"

text \<open>A call that nothing interrupts: its two parts one after the other.\<close>

definition processBestLap :: "clock \<Rightarrow> RawSimulatorData \<Rightarrow> tracker \<Rightarrow> outcome \<times> tracker" where
  "processBestLap clk data st =
     (case processBestLap_start clk data st of
        (Returned out, st1) \<Rightarrow> (out, st1)
      | (Awaiting s, st1) \<Rightarrow> processBestLap_resume s st1)"

text \<open>
  Calls as the server makes them: \<open>Arrives\<close> is a message of a producer, for which the
  handler starts \<open>processBestLap\<close>; \<open>Completes k\<close> is the end of the wait of the
  \<open>k\<close>-th call that arrived (counted from 0), which then runs to its end. A run keeps
  the calls that arrived, the outcomes so far (each with the number of its call) and the
  state of the tracker.
\<close>

datatype arrival = Arrives clock RawSimulatorData | Completes nat

type_synonym run = "started list \<times> (nat \<times> outcome) list \<times> tracker"

definition runStep :: "run \<Rightarrow> arrival \<Rightarrow> run" where
  "runStep r a =
     (case r of (calls, outs, st) \<Rightarrow>
        (case a of
           Arrives clk data \<Rightarrow>
             (case processBestLap_start clk data st of
                (Returned out, st1) \<Rightarrow>
                  (calls @ [Returned out], outs @ [(length calls, out)], st1)
              | (Awaiting s, st1) \<Rightarrow> (calls @ [Awaiting s], outs, st1))
         | Completes k \<Rightarrow>
             (if k < length calls \<and> k \<notin> fst ` set outs
              then (case calls ! k of
                      Awaiting s \<Rightarrow>
                        (case processBestLap_resume s st of
                           (out, st1) \<Rightarrow> (calls, outs @ [(k, out)], st1))
                    | Returned out \<Rightarrow> r)
              else r)))"

definition runArrivals :: "arrival list \<Rightarrow> tracker \<Rightarrow> run" where
  "runArrivals as st = foldl runStep ([], [], st) as"

text \<open>\<open>invalidateCache(eventName?)\<close>: the argument is tested for truthiness, so the empty
  string clears the whole cache as a missing argument does.\<close>

definition invalidateCache :: "string option \<Rightarrow> tracker \<Rightarrow> tracker" where
  "invalidateCache arg st =
     (case arg of
        Some e \<Rightarrow>
          if e \<noteq> [] then st\<lparr>eventCache := (eventCache st)(e := None)\<rparr>
          else st\<lparr>eventCache := Map.empty\<rparr>
      | None \<Rightarrow> st\<lparr>eventCache := Map.empty\<rparr>)"

text \<open>What a reader of the store sees for an event and a pilot: the cached table, else
  the table on disk, and the entry the table itself has for the pilot.\<close>

definition eventTable :: "tracker \<Rightarrow> string \<Rightarrow> EventData option" where
  "eventTable st e =
     (case eventCache st e of
        Some r \<Rightarrow> Some (heap st r)
      | None \<Rightarrow> disk st (sanitizeEventName e))"

definition storedRecord :: "tracker \<Rightarrow> string \<Rightarrow> string \<Rightarrow> BestLapRecord option" where
  "storedRecord st e p = (case eventTable st e of None \<Rightarrow> None | Some t \<Rightarrow> pilots t p)"

text \<open>The lap value a reader sees for an event and a pilot, if there is a record with a
  number.\<close>

definition storedLap :: "tracker \<Rightarrow> string \<Rightarrow> string \<Rightarrow> number option" where
  "storedLap st e p = (case storedRecord st e p of None \<Rightarrow> None | Some r \<Rightarrow> bestLapTime r)"

subsection \<open>Concrete states and samples\<close>

text \<open>The state at start-up, a sample of pilot Ana in event "Cup A", and a clock.\<close>

definition emptyTable :: EventData where
  "emptyTable = \<lparr>eventName = [], createdAt = [], lastUpdated = [], pilots = Map.empty\<rparr>"

definition emptyTracker :: tracker where
  "emptyTracker =
     \<lparr>heap = (\<lambda>r. emptyTable), nextRef = 0, eventCache = Map.empty,
      pendingWrites = Map.empty, timers = [], nextTimer = 0, writing = Map.empty,
      lastProcessedLap = Map.empty, disk = Map.empty, fsWrites = []\<rparr>"

definition anaSample :: "number option \<Rightarrow> number option \<Rightarrow> RawSimulatorData" where
  "anaSample bl bt =
     \<lparr>simNum = Finite 1, pilot_name = ''Ana'', car = ''GT3'', track = ''Spa'',
      lapData = \<lparr>lapTime = Finite 91000,
                 sectorTimes = [Finite 30000, Finite 31000, Finite 30000], isValid = True\<rparr>,
      currentLap = Finite 4, laps = Finite 10, speedNow = Finite 180, rpm = Finite 7000,
      maxRpm = Finite 9000, gear = Finite 4, gas = Finite 1, brake = Finite 0,
      fuel = Finite 40, maxFuel = Finite 100, position = Finite 2,
      sessionTimeLeft = Finite 600000,
      bestLap = bl, bestTime = bt, event = Some ''Cup A'', carData = None\<rparr>"

text \<open>The same sample from a pilot whose name is \<open>constructor\<close>.\<close>

definition constructorSample :: RawSimulatorData where
  "constructorSample = (anaSample (Some (Finite 90000)) None)\<lparr>pilot_name := ''constructor''\<rparr>"

definition clockAt :: "int \<Rightarrow> clock" where
  "clockAt n =
     \<lparr>dateNow = n, isoCreatedAt = ''created'', isoLastUpdatedNew = ''created'',
      isoTimestamp = ''stamp'', isoLastUpdated = ''updated'', saveTime = n\<rparr>"

text \<open>A table that holds 90000 for Ana, and a store with two tables on the heap.\<close>

definition cupTable :: EventData where
  "cupTable =
     \<lparr>eventName = ''Cup A'', createdAt = ''created'', lastUpdated = ''created'',
      pilots = [''Ana'' \<mapsto>
        \<lparr>pilotName = ''Ana'', bestLapTime = Some (Finite 90000), rec_car = ''GT3'',
         rec_track = ''Spa'', rec_timestamp = ''stamp'', rec_simNum = Some (Finite 1)\<rparr>]\<rparr>"

definition twoTables :: tracker where
  "twoTables =
     emptyTracker\<lparr>heap := (\<lambda>r. if r = 1 then cupTable\<lparr>lastUpdated := ''later''\<rparr> else cupTable),
                   nextRef := 2\<rparr>"

text \<open>
  Two messages of Ana for a new event, 88000 and then 95000, the second arriving while
  the first call waits for the file; then both waits end.
\<close>

definition overlappingCalls :: "arrival list" where
  "overlappingCalls =
     [Arrives (clockAt 1000) (anaSample (Some (Finite 88000)) None),
      Arrives (clockAt 1001) (anaSample (Some (Finite 95000)) None),
      Completes 0,
      Completes 1]"

text \<open>
  Three updates of one event at 0, 5001 and 5004, each with the cached table (object 0),
  as three accepted laps give them: the timer of the first update fires at 5000 and its
  write is in flight when the second update comes, and has ended when the third comes.
  \<open>burstStart\<close> is the state just before the second update, \<open>burstEnd\<close> the state
  after the third, and \<open>burstWritten\<close> the state when the event loop has run all timers
  due by 11000.
\<close>

definition firstTimer :: "nat \<times> timer" where
  "firstTimer = (0, \<lparr>due = 5000, filename = ''cup-a'', forEvent = ''Cup A'', dataRef = 0\<rparr>)"

definition burstStart :: tracker where
  "burstStart = directoryReady 0 (timerFires firstTimer (saveEventData 0 ''Cup A'' 0 twoTables))"

definition burstEnd :: tracker where
  "burstEnd =
     saveEventData 5004 ''Cup A'' 0
       (writeSettles True 0 (saveEventData 5001 ''Cup A'' 0 burstStart))"

definition burstWritten :: tracker where
  "burstWritten = runTimers (\<lambda>i. True) 11000 burstEnd"
section \<open>The connection manager\<close>

text \<open>
  A socket as the manager sees it: its \<open>readyState\<close>, the payloads \<open>send\<close> has
  accepted, and whether the next \<open>send\<close> throws (\<open>sendError\<close> is then the message of
  the error). The fields \<open>id\<close> and \<open>type\<close> of a client are \<open>cid\<close> and \<open>ctype\<close>
  here.
\<close>

datatype clientType = Input | Output

datatype readyState = CONNECTING | OPEN | CLOSING | CLOSED

record WebSocket =
  readyState :: readyState
  sendError :: "string option"
  sent :: "string list"

record Client =
  cid :: string
  ws :: WebSocket
  ctype :: clientType
  connectedAt :: int
  simulatorId :: "number option"
  lastActivity :: "int option"

record OutputMessage =
  msg_type :: string
  msg_data :: RawSimulatorData
  msg_timestamp :: string

record ServerStats =
  inputClients :: nat
  outputClients :: nat
  totalMessages :: nat
  uptime :: int
  activeSimulators :: "number list"

text \<open>\<open>clients\<close> is a \<open>Map\<close>: the entries in the order they were inserted.\<close>

record ConnectionManager =
  clients :: "(string \<times> Client) list"
  startTime :: int
  messageCount :: nat

datatype logEntry =
    SendFailed string string
  | Distributed number nat

text \<open>\<open>ws.send(payload)\<close>: \<open>Inl\<close> is the error thrown.\<close>

definition send :: "string \<Rightarrow> WebSocket \<Rightarrow> string + WebSocket" where
  "send payload w =
     (case sendError w of
        Some err \<Rightarrow> Inl err
      | None \<Rightarrow> Inr (w\<lparr>sent := sent w @ [payload]\<rparr>))"

text \<open>
  The callback of \<open>this.clients.forEach\<close> in \<open>broadcastToOutputs\<close>, on one client, with
  \<open>sentCount\<close> and the log so far. \<open>Inl\<close> would be an exception that leaves the
  callback.
\<close>

definition sendToClient ::
  "int \<Rightarrow> string \<Rightarrow> Client \<Rightarrow> nat \<times> logEntry list \<Rightarrow> string + (Client \<times> nat \<times> logEntry list)" where
  "sendToClient now messageStr client acc =
     (if ctype client = Output \<and> readyState (ws client) = OPEN
      then (case send messageStr (ws client) of
              Inr w \<Rightarrow> Inr (client\<lparr>ws := w, lastActivity := Some now\<rparr>, fst acc + 1, snd acc)
            | Inl err \<Rightarrow> Inr (client, fst acc, snd acc @ [SendFailed (cid client) err]))
      else Inr (client, fst acc, snd acc))"

text \<open>\<open>Map.prototype.forEach\<close>: the callback on every entry in order; an exception of
  the callback ends the loop and leaves it.\<close>

fun forEachClient ::
  "(Client \<Rightarrow> 'a \<Rightarrow> string + (Client \<times> 'a)) \<Rightarrow> (string \<times> Client) list \<Rightarrow> 'a
     \<Rightarrow> string + ((string \<times> Client) list \<times> 'a)" where
  "forEachClient f [] acc = Inr ([], acc)"
| "forEachClient f (kc # rest) acc =
     (case f (snd kc) acc of
        Inl err \<Rightarrow> Inl err
      | Inr (c', acc') \<Rightarrow>
          (case forEachClient f rest acc' of
             Inl err \<Rightarrow> Inl err
           | Inr (rest', acc'') \<Rightarrow> Inr ((fst kc, c') # rest', acc'')))"

text \<open>
  \<open>broadcastToOutputs(data)\<close>. \<open>stringify\<close> is \<open>JSON.stringify\<close>, \<open>isoNow\<close> the reading of
  \<open>new Date().toISOString()\<close> and \<open>now\<close> that of \<open>new Date()\<close> in the loop, which runs
  without a pause. The result is the manager after the call and the lines logged.
\<close>

definition broadcastToOutputs ::
  "(OutputMessage \<Rightarrow> string) \<Rightarrow> string \<Rightarrow> int \<Rightarrow> RawSimulatorData \<Rightarrow> ConnectionManager
     \<Rightarrow> string + (ConnectionManager \<times> logEntry list)" where
  "broadcastToOutputs stringify isoNow now data m =
     (let message = \<lparr>msg_type = ''simulator-update'', msg_data = data, msg_timestamp = isoNow\<rparr>;
          messageStr = stringify message
      in case forEachClient (sendToClient now messageStr) (clients m) (0, []) of
           Inl err \<Rightarrow> Inl err
         | Inr (cs, sentCount, lg) \<Rightarrow>
             Inr (m\<lparr>clients := cs, messageCount := messageCount m + 1\<rparr>,
                  lg @ [Distributed (simNum data) sentCount]))"

text \<open>\<open>Array.from(new Set(xs))\<close>: the first occurrence of every value, in order.\<close>

definition distinctValues :: "'a list \<Rightarrow> 'a list" where
  "distinctValues xs = rev (remdups (rev xs))"

definition getStats :: "int \<Rightarrow> ConnectionManager \<Rightarrow> ServerStats" where
  "getStats now m =
     (let ins = filter (\<lambda>c. ctype c = Input) (map snd (clients m));
          outs = filter (\<lambda>c. ctype c = Output) (map snd (clients m))
      in \<lparr>inputClients = length ins, outputClients = length outs,
          totalMessages = messageCount m,
          uptime = (now - startTime m) div 1000,
          activeSimulators =
            distinctValues (concat (map (\<lambda>c. case simulatorId c of Some i \<Rightarrow> [i] | None \<Rightarrow> []) ins))\<rparr>)"

text \<open>The serialized message of a call, and what the loop does to one client.\<close>

definition payloadOf :: "(OutputMessage \<Rightarrow> string) \<Rightarrow> string \<Rightarrow> RawSimulatorData \<Rightarrow> string" where
  "payloadOf stringify isoNow data =
     stringify \<lparr>msg_type = ''simulator-update'', msg_data = data, msg_timestamp = isoNow\<rparr>"

definition isOpenOutput :: "Client \<Rightarrow> bool" where
  "isOpenOutput c = (ctype c = Output \<and> readyState (ws c) = OPEN)"

definition afterSend :: "int \<Rightarrow> string \<Rightarrow> Client \<Rightarrow> Client" where
  "afterSend now payload c =
     (if isOpenOutput c \<and> sendError (ws c) = None
      then c\<lparr>ws := (ws c)\<lparr>sent := sent (ws c) @ [payload]\<rparr>, lastActivity := Some now\<rparr>
      else c)"

definition sendFailures :: "(string \<times> Client) list \<Rightarrow> logEntry list" where
  "sendFailures cs =
     concat (map (\<lambda>kc. if isOpenOutput (snd kc)
                        then (case sendError (ws (snd kc)) of
                                Some err \<Rightarrow> [SendFailed (cid (snd kc)) err]
                              | None \<Rightarrow> [])
                        else []) cs)"

subsection \<open>A concrete manager\<close>

text \<open>A serializer for examples, and a manager with five clients: two open consumers, one
  open consumer whose \<open>send\<close> throws, a producer and a closed consumer.\<close>

definition demoStringify :: "OutputMessage \<Rightarrow> string" where
  "demoStringify msg = msg_type msg @ ''|'' @ pilot_name (msg_data msg) @ ''|'' @ msg_timestamp msg"

definition demoClient :: "string \<Rightarrow> clientType \<Rightarrow> readyState \<Rightarrow> string option \<Rightarrow> string \<times> Client" where
  "demoClient k t r e =
     (k, \<lparr>cid = k, ws = \<lparr>readyState = r, sendError = e, sent = []\<rparr>, ctype = t,
          connectedAt = 0, simulatorId = None, lastActivity = None\<rparr>)"

definition demoManager :: ConnectionManager where
  "demoManager =
     \<lparr>clients = [demoClient ''a'' Output OPEN None,
                 demoClient ''b'' Output OPEN (Some ''EPIPE''),
                 demoClient ''c'' Input OPEN None,
                 demoClient ''d'' Output CLOSED None,
                 demoClient ''e'' Output OPEN None],
      startTime = 0, messageCount = 7\<rparr>"

definition noClients :: ConnectionManager where
  "noClients = \<lparr>clients = [], startTime = 0, messageCount = 0\<rparr>"

section \<open>The handler of producer messages\<close>

text \<open>
  Reading a property of a value that is not \<open>null\<close>: \<open>None\<close> is \<open>undefined\<close>. Of two
  members with the same key \<open>JSON.parse\<close> keeps the later one. The handler reads the keys
  \<open>type\<close>, \<open>data\<close>, \<open>simNum\<close>, \<open>pilot-name\<close>, \<open>car\<close> and \<open>track\<close>, which no
  string, number, boolean or array has.
\<close>

definition jsonMember :: "json \<Rightarrow> string \<Rightarrow> json option" where
  "jsonMember v k = (case v of JObj kvs \<Rightarrow> map_of (rev kvs) k | _ \<Rightarrow> None)"

text \<open>Truthiness of a value read from the message.\<close>

definition truthy :: "json option \<Rightarrow> bool" where
  "truthy v =
     (case v of
        None \<Rightarrow> False
      | Some JNull \<Rightarrow> False
      | Some (JBool b) \<Rightarrow> b
      | Some (JNum n) \<Rightarrow> n \<noteq> Finite 0
      | Some (JStr s) \<Rightarrow> s \<noteq> []
      | Some (JArr xs) \<Rightarrow> True
      | Some (JObj kvs) \<Rightarrow> True)"

definition isString :: "json option \<Rightarrow> bool" where
  "isString v = (case v of Some (JStr s) \<Rightarrow> True | _ \<Rightarrow> False)"

definition validateSimulatorData :: "json \<Rightarrow> bool" where
  "validateSimulatorData data =
     ((case jsonMember data ''simNum'' of Some (JNum n) \<Rightarrow> Finite 1 \<le> n \<and> n \<le> Finite 3 | _ \<Rightarrow> False)
      \<and> isString (jsonMember data ''pilot-name'')
      \<and> isString (jsonMember data ''car'')
      \<and> isString (jsonMember data ''track''))"

definition invalidFormat :: string where
  "invalidFormat =
     ''Formato inv'' @ [CHR 0xE1] @ ''lido. Esperado: {type: 'simulator-update', data: {...}}''"

definition invalidData :: string where
  "invalidData =
     ''Dados inv'' @ [CHR 0xE1] @ ''lidos. Campos obrigat'' @ [CHR 0xF3]
       @ ''rios: simNum (1-3), pilot-name, car, track''"

definition errorAck :: "string \<Rightarrow> json" where
  "errorAck reason = JObj [(''type'', JStr ''error''), (''message'', JStr reason)]"

text \<open>
  What the handler does with one message, as the list of its calls: \<open>SendToProducer v\<close> is
  \<open>ws.send(JSON.stringify(v))\<close> on the producer's socket, \<open>SetSimulatorId\<close>,
  \<open>ProcessBestLap\<close> and \<open>BroadcastToOutputs\<close> are the calls of these functions with the
  value read from the message, \<open>LoggedWarn\<close> and \<open>LoggedError\<close> the calls of
  \<open>logger.warn\<close> and \<open>logger.error\<close> (the debug lines are left out).
\<close>

datatype effect =
    SendToProducer json
  | SetSimulatorId "json option"
  | ProcessBestLap json
  | BroadcastToOutputs json
  | LoggedWarn
  | LoggedError

text \<open>The two rejections: a warning, the acknowledgment, and the outer \<open>catch\<close> when
  \<open>ws.send\<close> throws.\<close>

definition reject :: "bool \<Rightarrow> string \<Rightarrow> effect list" where
  "reject sendThrows reason =
     [LoggedWarn, SendToProducer (errorAck reason)] @ (if sendThrows then [LoggedError] else [])"

text \<open>
  The \<open>message\<close> listener of \<open>handleInputConnection\<close>. \<open>parsed\<close> is the result of
  \<open>JSON.parse(data.toString())\<close>, \<open>None\<close> when it throws; \<open>sendThrows\<close> says whether
  \<open>ws.send\<close> on the producer's socket throws. Reading \<open>message.type\<close> of \<open>null\<close> throws
  a \<open>TypeError\<close>; every exception ends in the \<open>catch\<close>, which logs it.
\<close>

definition onInputMessage :: "bool \<Rightarrow> json option \<Rightarrow> effect list" where
  "onInputMessage sendThrows parsed =
     (case parsed of
        None \<Rightarrow> [LoggedError]
      | Some JNull \<Rightarrow> [LoggedError]
      | Some message \<Rightarrow>
          if jsonMember message ''type'' \<noteq> Some (JStr ''simulator-update'')
             \<or> \<not> truthy (jsonMember message ''data'')
          then reject sendThrows invalidFormat
          else (case jsonMember message ''data'' of
                  None \<Rightarrow> reject sendThrows invalidFormat
                | Some data \<Rightarrow>
                    if \<not> validateSimulatorData data
                    then reject sendThrows invalidData
                    else [SetSimulatorId (jsonMember data ''simNum''), ProcessBestLap data,
                          BroadcastToOutputs data]))"

text \<open>
  A well-formed sample in the words of the specification: a message
  \<open>{ type: "simulator-update", data: <sample> }\<close> whose sample meets the validation
  contract (simulator identifier numeric and within the bound, pilot name, car and track
  present as text).
\<close>

definition wellFormedSample :: "json option \<Rightarrow> bool" where
  "wellFormedSample parsed =
     (case parsed of
        Some (JObj kvs) \<Rightarrow>
          jsonMember (JObj kvs) ''type'' = Some (JStr ''simulator-update'')
          \<and> (case jsonMember (JObj kvs) ''data'' of
                Some (JObj ds) \<Rightarrow> validateSimulatorData (JObj ds)
              | _ \<Rightarrow> False)
      | _ \<Rightarrow> False)"

section \<open>Properties of the file name\<close>

lemma lowerChar_fix: "isAlnum c \<or> c = dash \<Longrightarrow> lowerChar c = c"
  by (auto simp: isAlnum_def lowerChar_def Let_def dash_def)

lemma dash_not_alnum: "\<not> isAlnum dash"
  by (simp add: isAlnum_def dash_def)

lemma collapse_replace:
  "collapseRuns False s = replaceNonAlnum s \<and>
   collapseRuns True s = replaceNonAlnum (dropWhile (\<lambda>x. \<not> isAlnum x) s)"
  by (induction s) auto

lemma hd_dropWhile_alnum: "dropWhile (\<lambda>x. \<not> isAlnum x) cs = [] \<or> isAlnum (hd (dropWhile (\<lambda>x. \<not> isAlnum x) cs))"
  using hd_dropWhile[of "\<lambda>x. \<not> isAlnum x" cs] by auto

lemma hd_replace: "isAlnum (hd (replaceNonAlnum s)) \<longleftrightarrow> s \<noteq> [] \<and> isAlnum (hd s)" if "s \<noteq> []"
  using that by (cases s) (auto simp: dash_not_alnum)

lemma replace_Nil: "replaceNonAlnum s = [] \<longleftrightarrow> s = []"
  by (cases s) auto

lemma replace_shape: "dashThenAlnum (replaceNonAlnum s)"
proof (induction s rule: replaceNonAlnum.induct)
  case 1 show ?case by simp
next
  case (2 c cs)
  show ?case
  proof (cases "isAlnum c")
    case True with 2 show ?thesis by simp
  next
    case False
    let ?d = "dropWhile (\<lambda>x. \<not> isAlnum x) cs"
    have "?d = [] \<or> isAlnum (hd ?d)" by (rule hd_dropWhile_alnum)
    then have "replaceNonAlnum ?d = [] \<or> isAlnum (hd (replaceNonAlnum ?d))"
      using hd_replace[of ?d] replace_Nil[of ?d] by auto
    with False 2 show ?thesis by simp
  qed
qed

lemma shape_replace_id: "dashThenAlnum t \<Longrightarrow> replaceNonAlnum t = t"
proof (induction t)
  case Nil show ?case by simp
next
  case (Cons c cs)
  then show ?case by (cases cs) (auto simp: dash_not_alnum)
qed

lemma shape_chars: "dashThenAlnum t \<Longrightarrow> c \<in> set t \<Longrightarrow> isAlnum c \<or> c = dash"
  by (induction t) auto

lemma shape_single: "dashThenAlnum t \<Longrightarrow> singleSeparators t"
  by (induction t rule: singleSeparators.induct) (auto simp: dash_not_alnum)

lemma shape_lower: "dashThenAlnum t \<Longrightarrow> toLowerCase t = t"
  unfolding toLowerCase_def by (induction t) (auto simp: lowerChar_fix)

lemma shape_tl: "dashThenAlnum (c # cs) \<Longrightarrow> dashThenAlnum cs" by simp

lemma shape_butlast: "dashThenAlnum t \<Longrightarrow> dashThenAlnum (butlast t)"
proof (induction t)
  case Nil show ?case by simp
next
  case (Cons c cs)
  then show ?case by (cases cs; cases "tl cs") auto
qed

lemma shape_snoc2: "dashThenAlnum (zs @ [a, b]) \<Longrightarrow> \<not> (a = dash \<and> b = dash)"
  by (induction zs) (auto simp: dash_not_alnum)

lemma shape_strip: "dashThenAlnum t \<Longrightarrow> dashThenAlnum (stripEdgeDashes t)"
  unfolding stripEdgeDashes_def Let_def
  by (cases t) (auto intro: shape_butlast)

lemma shape_lead:
  "dashThenAlnum t \<Longrightarrow>
   dropWhile (\<lambda>c. c = dash) t = (case t of [] \<Rightarrow> [] | c # cs \<Rightarrow> if c = dash then cs else t)"
  by (cases t; cases "tl t") (auto simp: dash_not_alnum)

lemma shape_trail:
  assumes "dashThenAlnum u"
  shows "rev (dropWhile (\<lambda>c. c = dash) (rev u)) = (if u \<noteq> [] \<and> last u = dash then butlast u else u)"
proof (cases u rule: rev_cases)
  case Nil then show ?thesis by simp
next
  case (snoc ys y)
  show ?thesis
  proof (cases "y = dash")
    case False with snoc show ?thesis by simp
  next
    case True
    have "dropWhile (\<lambda>c. c = dash) (rev ys) = rev ys"
    proof (cases ys rule: rev_cases)
      case Nil then show ?thesis by simp
    next
      case (snoc zs z)
      with assms \<open>u = ys @ [y]\<close> True have "z \<noteq> dash"
        using shape_snoc2[of zs z y] by auto
      with snoc show ?thesis by simp
    qed
    with snoc True show ?thesis by simp
  qed
qed

lemma strip_trim: assumes "dashThenAlnum t" shows "stripEdgeDashes t = trimSeparators t"
proof -
  let ?u = "case t of [] \<Rightarrow> [] | c # cs \<Rightarrow> if c = dash then cs else t"
  have u: "dashThenAlnum ?u" using assms by (cases t) auto
  show ?thesis
    unfolding stripEdgeDashes_def trimSeparators_def Let_def
    using shape_lead[OF assms] shape_trail[OF u] by simp
qed

lemma strip_edges:
  assumes "dashThenAlnum t" "stripEdgeDashes t \<noteq> []"
  shows "hd (stripEdgeDashes t) \<noteq> dash \<and> last (stripEdgeDashes t) \<noteq> dash"
proof -
  let ?P = "\<lambda>c. c = dash"
  let ?u = "dropWhile ?P t"
  let ?r = "rev (dropWhile ?P (rev ?u))"
  have r: "stripEdgeDashes t = ?r"
    using strip_trim[OF assms(1)] by (simp add: trimSeparators_def)
  with assms(2) have ne: "dropWhile ?P (rev ?u) \<noteq> []" by simp
  then have "\<not> ?P (hd (dropWhile ?P (rev ?u)))" by (rule hd_dropWhile)
  then have l: "last ?r \<noteq> dash" using ne by (simp add: last_rev)
  have u: "dashThenAlnum ?u"
    using assms(1) shape_lead[OF assms(1)] by (cases t) auto
  have une: "?u \<noteq> []"
  proof
    assume "?u = []"
    with ne show False by simp
  qed
  then have hu: "hd ?u \<noteq> dash" using hd_dropWhile[of ?P t] by simp
  have "hd ?r = hd ?u"
  proof (cases "?u \<noteq> [] \<and> last ?u = dash")
    case True
    have e: "?r = butlast ?u" using shape_trail[OF u] by (simp only: if_P[OF True])
    with r assms(2) have "butlast ?u \<noteq> []" by simp
    then have "hd (butlast ?u) = hd ?u" by (cases ?u) auto
    then show ?thesis by (simp only: e)
  next
    case False
    have "?r = ?u" using shape_trail[OF u] by (simp only: if_not_P[OF False])
    then show ?thesis by (simp only:)
  qed
  with hu l r show ?thesis by simp
qed

lemma strip_id: "dashThenAlnum t \<Longrightarrow> (t \<noteq> [] \<longrightarrow> hd t \<noteq> dash \<and> last t \<noteq> dash) \<Longrightarrow> stripEdgeDashes t = t"
  unfolding stripEdgeDashes_def Let_def by (cases t) auto


text \<open>
  Claim C9. For every event name, \<open>sanitizeEventName\<close> returns the name lower-cased,
  with every maximal run of characters outside \<open>[a-z0-9]\<close> collapsed to one separator
  and the separators at both ends removed (\<open>safeNameSpec\<close>). The function is
  idempotent, and its result holds only lowercase letters, digits and separators, no two
  separators side by side and none at either end.
\<close>

theorem sanitizeEventName_spec:
  "sanitizeEventName s = safeNameSpec s
   \<and> sanitizeEventName (sanitizeEventName s) = sanitizeEventName s
   \<and> (\<forall>c \<in> set (sanitizeEventName s). isAlnum c \<or> c = dash)
   \<and> singleSeparators (sanitizeEventName s)
   \<and> (sanitizeEventName s \<noteq> [] \<longrightarrow>
        hd (sanitizeEventName s) \<noteq> dash \<and> last (sanitizeEventName s) \<noteq> dash)"
proof -
  let ?t = "replaceNonAlnum (toLowerCase s)"
  let ?o = "sanitizeEventName s"
  have t: "dashThenAlnum ?t" by (rule replace_shape)
  have o: "dashThenAlnum ?o" unfolding sanitizeEventName_def by (rule shape_strip[OF t])
  have 1: "?o = safeNameSpec s"
    unfolding sanitizeEventName_def safeNameSpec_def
    using strip_trim[OF t] collapse_replace[of "toLowerCase s"] by simp
  have 5: "?o \<noteq> [] \<longrightarrow> hd ?o \<noteq> dash \<and> last ?o \<noteq> dash"
    unfolding sanitizeEventName_def using strip_edges[OF t] by blast
  have 2: "sanitizeEventName ?o = ?o"
    using shape_lower[OF o] shape_replace_id[OF o] strip_id[OF o 5]
    by (simp add: sanitizeEventName_def)
  have 3: "\<forall>c \<in> set ?o. isAlnum c \<or> c = dash" using shape_chars[OF o] by blast
  have 4: "singleSeparators ?o" by (rule shape_single[OF o])
  from 1 2 3 4 5 show ?thesis by blast
qed

text \<open>The claim at the event name \<open>--Cup  A!\<close>.\<close>

theorem sanitizeEventName_spec_witness:
  "sanitizeEventName ''--Cup  A!'' = ''cup-a''
   \<and> safeNameSpec ''--Cup  A!'' = ''cup-a''
   \<and> sanitizeEventName ''cup-a'' = ''cup-a''"
proof -
  have a: "sanitizeEventName ''--Cup  A!'' = ''cup-a''" by code_simp
  have b: "sanitizeEventName ''--Cup  A!'' = safeNameSpec ''--Cup  A!''"
    and c: "sanitizeEventName (sanitizeEventName ''--Cup  A!'') = sanitizeEventName ''--Cup  A!''"
    using sanitizeEventName_spec[of "''--Cup  A!''"] by blast+
  have "safeNameSpec ''--Cup  A!'' = ''cup-a''" using b unfolding a by (rule sym)
  moreover have "sanitizeEventName ''cup-a'' = ''cup-a''" using c unfolding a .
  ultimately show ?thesis using a by blast
qed

section \<open>Properties of the reconciler\<close>

text \<open>The candidate spelled out: a \<open>bestLap\<close> of 0 gives way to \<open>bestTime\<close> as a
  missing one does.\<close>

lemma candidate_cases:
  "candidate data =
     (if bestLap data = None \<or> bestLap data = Some (Finite 0) then bestTime data
      else bestLap data)"
  by (auto simp: candidate_def split: option.splits)

text \<open>
  Claim C4 says that a call is a no-op when the candidate, \<open>bestLap\<close> if present and
  else \<open>bestTime\<close>, is absent or at most zero. A sample with \<open>bestLap\<close> 0 and
  \<open>bestTime\<close> 90000 has such a candidate in these words, but \<open>0 || 90000\<close> is 90000:
  the call writes the ledger, creates and caches the table and arms a write timer.
\<close>

theorem zero_bestLap_gives_way:
  "(let sample = anaSample (Some (Finite 0)) (Some (Finite 90000));
        call = processBestLap (clockAt 1000) sample emptyTracker
    in preferredLap sample = Some (Finite 0)
       \<and> (case preferredLap sample of None \<Rightarrow> True | Some x \<Rightarrow> x \<le> Finite 0)
       \<and> lastProcessedLap emptyTracker (pilotKeyOf sample) = None
       \<and> eventCache emptyTracker ''Cup A'' = None
       \<and> timers emptyTracker = []
       \<and> fst call = Updated
       \<and> lastProcessedLap (snd call) (pilotKeyOf sample) =
           Some \<lparr>lap = Finite 90000, timestamp = 1000\<rparr>
       \<and> eventCache (snd call) ''Cup A'' = Some 0
       \<and> storedLap (snd call) ''Cup A'' ''Ana'' = Some (Finite 90000)
       \<and> map fst (timers (snd call)) = [0])"
proof -
  let ?s = "anaSample (Some (Finite 0)) (Some (Finite 90000))"
  let ?c = "processBestLap (clockAt 1000) ?s emptyTracker"
  have 1: "preferredLap ?s = Some (Finite 0)" by code_simp
  have 2: "(case preferredLap ?s of None \<Rightarrow> True | Some x \<Rightarrow> x \<le> Finite 0)"
    unfolding 1 by simp
  have 3: "lastProcessedLap emptyTracker (pilotKeyOf ?s) = None" by (simp add: emptyTracker_def)
  have 4: "eventCache emptyTracker ''Cup A'' = None" by (simp add: emptyTracker_def)
  have 5: "timers emptyTracker = []" by (simp add: emptyTracker_def)
  have 6: "fst ?c = Updated" by code_simp
  have 7: "lastProcessedLap (snd ?c) (pilotKeyOf ?s) = Some \<lparr>lap = Finite 90000, timestamp = 1000\<rparr>"
    by code_simp
  have 8: "eventCache (snd ?c) ''Cup A'' = Some 0" by code_simp
  have 9: "storedLap (snd ?c) ''Cup A'' ''Ana'' = Some (Finite 90000)" by code_simp
  have 10: "map fst (timers (snd ?c)) = [0]" by code_simp
  from 1 2 3 4 5 6 7 8 9 10 show ?thesis unfolding Let_def by blast
qed

text \<open>
  Claim C4, amended. When the candidate lap value (\<open>data.bestLap || data.bestTime\<close>:
  \<open>bestLap\<close> when it is present and not 0, else \<open>bestTime\<close>) is absent or at most
  zero, the call returns before its first \<open>await\<close> and the whole state is as before: no
  table is loaded or changed, the throttle ledger has no new entry and no write timer is
  armed. The state is arbitrary, so the result depends on nothing in the cache or on disk.
\<close>

theorem processBestLap_no_candidate:
  "(case candidate data of None \<Rightarrow> True | Some x \<Rightarrow> x \<le> Finite 0) \<Longrightarrow>
   processBestLap_start clk data st = (Returned NoCandidate, st)
   \<and> processBestLap clk data st = (NoCandidate, st)"
  by (auto simp: processBestLap_def processBestLap_start_def Let_def split: option.splits)

text \<open>The claim for a sample whose \<open>bestLap\<close> is 0 and for one whose \<open>bestTime\<close> is
  negative.\<close>

theorem processBestLap_no_candidate_witness:
  "candidate (anaSample (Some (Finite 0)) None) = None
   \<and> candidate (anaSample None (Some (Finite (-5)))) = Some (Finite (-5))
   \<and> processBestLap (clockAt 1000) (anaSample (Some (Finite 0)) None) emptyTracker
       = (NoCandidate, emptyTracker)
   \<and> processBestLap (clockAt 1000) (anaSample None (Some (Finite (-5)))) emptyTracker
       = (NoCandidate, emptyTracker)"
proof -
  have a: "candidate (anaSample (Some (Finite 0)) None) = None"
    by (simp add: candidate_def anaSample_def)
  have b: "candidate (anaSample None (Some (Finite (-5)))) = Some (Finite (-5))"
    by (simp add: candidate_def anaSample_def)
  have c: "Finite (-5) \<le> Finite 0" by (simp add: less_eq_number_def)
  from processBestLap_no_candidate[of "anaSample (Some (Finite 0)) None" "clockAt 1000" emptyTracker] a
  have 1: "processBestLap (clockAt 1000) (anaSample (Some (Finite 0)) None) emptyTracker
       = (NoCandidate, emptyTracker)" by simp
  from processBestLap_no_candidate[of "anaSample None (Some (Finite (-5)))" "clockAt 1000" emptyTracker] b c
  have 2: "processBestLap (clockAt 1000) (anaSample None (Some (Finite (-5)))) emptyTracker
       = (NoCandidate, emptyTracker)" by simp
  from a b 1 2 show ?thesis by blast
qed

text \<open>The throttle where the candidate comes from \<open>bestLap\<close>: a recent ledger entry with
  the same lap value makes the call return, before its first \<open>await\<close>, with the state
  untouched.\<close>

lemma processBestLap_throttled:
  assumes "lastProcessedLap st (pilotKeyOf data) = Some lp"
    and "dateNow clk - timestamp lp < MIN_PROCESS_INTERVAL_MS"
    and "bestLap data = Some (lap lp)" and "Finite 0 < lap lp"
  shows "processBestLap_start clk data st = (Returned Throttled, st)
       \<and> processBestLap clk data st = (Throttled, st)"
  using assms
  by (auto simp: processBestLap_def processBestLap_start_def candidate_def isThrottled_def Let_def)

text \<open>
  Claim C1. A call whose ledger entry is less than the throttle window old and holds the
  candidate lap value of the current sample should change nothing. The source compares the
  entry with \<open>data.bestLap\<close> and not with the candidate, so a sample that carries its value
  in \<open>bestTime\<close> is never throttled: sent twice within 1000 ms, the second call is taken to
  the store ("not better") and rewrites the ledger entry.
\<close>

theorem throttle_misses_bestTime:
  "(let sample = anaSample None (Some (Finite 90000));
        st1 = snd (processBestLap (clockAt 1000) sample emptyTracker);
        second = processBestLap (clockAt 2000) sample st1
    in candidate sample = Some (Finite 90000)
       \<and> lastProcessedLap st1 (pilotKeyOf sample) = Some \<lparr>lap = Finite 90000, timestamp = 1000\<rparr>
       \<and> dateNow (clockAt 2000) - 1000 < MIN_PROCESS_INTERVAL_MS
       \<and> fst second = NotBetter
       \<and> lastProcessedLap (snd second) (pilotKeyOf sample) = Some \<lparr>lap = Finite 90000, timestamp = 2000\<rparr>
       \<and> snd second \<noteq> st1)"
proof -
  let ?s = "anaSample None (Some (Finite 90000))"
  let ?st1 = "snd (processBestLap (clockAt 1000) ?s emptyTracker)"
  let ?second = "processBestLap (clockAt 2000) ?s ?st1"
  have 1: "candidate ?s = Some (Finite 90000)" by code_simp
  have 2: "lastProcessedLap ?st1 (pilotKeyOf ?s) = Some \<lparr>lap = Finite 90000, timestamp = 1000\<rparr>"
    by code_simp
  have 3: "dateNow (clockAt 2000) - 1000 < MIN_PROCESS_INTERVAL_MS" by code_simp
  have 4: "fst ?second = NotBetter" by code_simp
  have 5: "lastProcessedLap (snd ?second) (pilotKeyOf ?s) = Some \<lparr>lap = Finite 90000, timestamp = 2000\<rparr>"
    by code_simp
  have 6: "snd ?second \<noteq> ?st1"
  proof
    assume "snd ?second = ?st1"
    with 2 5 have "Some \<lparr>lap = Finite 90000, timestamp = (1000::int)\<rparr>
                 = Some \<lparr>lap = Finite 90000, timestamp = 2000\<rparr>" by simp
    then show False by simp
  qed
  from 1 2 3 4 5 6 show ?thesis unfolding Let_def by blast
qed

text \<open>
  Claim C2. A call that reaches the decision should end in an update when the table has
  no record for the pilot. The source reads \<open>eventData.pilots[pilotName]\<close> from a plain
  object: for a pilot whose name is \<open>constructor\<close> the read finds the inherited
  \<open>Object\<close>, which counts as an existing record, and \<open>90000 < undefined\<close> is false. The
  first lap of this pilot in a new event ends in "not better", no record is stored and no
  write is scheduled.
\<close>

theorem inherited_name_blocks_first_record:
  "(let call = processBestLap (clockAt 1000) constructorSample emptyTracker
    in pilot_name constructorSample = ''constructor''
       \<and> candidate constructorSample = Some (Finite 90000)
       \<and> lastProcessedLap emptyTracker (pilotKeyOf constructorSample) = None
       \<and> storedRecord emptyTracker ''Cup A'' ''constructor'' = None
       \<and> fst call = NotBetter
       \<and> storedRecord (snd call) ''Cup A'' ''constructor'' = None
       \<and> timers (snd call) = [])"
proof -
  let ?c = "processBestLap (clockAt 1000) constructorSample emptyTracker"
  have 1: "pilot_name constructorSample = ''constructor''" by code_simp
  have 2: "candidate constructorSample = Some (Finite 90000)" by code_simp
  have 3: "lastProcessedLap emptyTracker (pilotKeyOf constructorSample) = None" by code_simp
  have 4: "storedRecord emptyTracker ''Cup A'' ''constructor'' = None" by code_simp
  have 5: "fst ?c = NotBetter" by code_simp
  have 6: "storedRecord (snd ?c) ''Cup A'' ''constructor'' = None" by code_simp
  have 7: "timers (snd ?c) = []" by code_simp
  from 1 2 3 4 5 6 7 show ?thesis unfolding Let_def by blast
qed

text \<open>The same sample from a pilot whose name the prototype does not have is accepted.\<close>

lemma own_name_first_record:
  "fst (processBestLap (clockAt 1000) (anaSample (Some (Finite 90000)) None) emptyTracker) = Updated"
  by code_simp

text \<open>For a name the prototype does not have, the decision is the one of the source's
  comment: the first record, or a strictly better time (a stored \<open>null\<close> counting as 0).\<close>

lemma shouldUpdate_own_name:
  "name \<notin> set objectPrototypeKeys \<Longrightarrow>
   shouldUpdate v (readPilot ps name) =
     (case ps name of
        None \<Rightarrow> True
      | Some r \<Rightarrow> v < (case bestLapTime r of Some b \<Rightarrow> b | None \<Rightarrow> Finite 0))"
  by (simp add: shouldUpdate_def readPilot_def split: option.splits)

text \<open>
  Claim C3. Over the calls for one event and pilot the stored \<open>bestLapTime\<close> should be
  the least accepted value and should never grow. The server does not await
  \<open>processBestLap\<close>, and a call that finds no table in the cache waits for the file: a
  second call that arrives meanwhile waits for the file too, each of the two then works on
  a table of its own and the later \<open>saveEventData\<close> replaces the earlier table. With
  88000 and then 95000 for a new event both calls end in an update; the store holds 88000
  after the first and 95000 after the second.
\<close>

theorem overlapping_calls_lose_best_lap:
  "(let before = runArrivals (take 3 overlappingCalls) emptyTracker;
        after = runArrivals overlappingCalls emptyTracker
    in storedRecord emptyTracker ''Cup A'' ''Ana'' = None
       \<and> fst (snd before) = [(0, Updated)]
       \<and> storedLap (snd (snd before)) ''Cup A'' ''Ana'' = Some (Finite 88000)
       \<and> fst (snd after) = [(0, Updated), (1, Updated)]
       \<and> storedLap (snd (snd after)) ''Cup A'' ''Ana'' = Some (Finite 95000))"
proof -
  let ?b = "runArrivals (take 3 overlappingCalls) emptyTracker"
  let ?a = "runArrivals overlappingCalls emptyTracker"
  have 1: "storedRecord emptyTracker ''Cup A'' ''Ana'' = None" by code_simp
  have 2: "fst (snd ?b) = [(0, Updated)]" by code_simp
  have 3: "storedLap (snd (snd ?b)) ''Cup A'' ''Ana'' = Some (Finite 88000)" by code_simp
  have 4: "fst (snd ?a) = [(0, Updated), (1, Updated)]" by code_simp
  have 5: "storedLap (snd (snd ?a)) ''Cup A'' ''Ana'' = Some (Finite 95000)" by code_simp
  from 1 2 3 4 5 show ?thesis unfolding Let_def by blast
qed

text \<open>The same two calls, the second arriving when the first has ended: the second is
  "not better" and the store keeps 88000.\<close>

lemma calls_in_turn_keep_best_lap:
  "(let r = runArrivals [Arrives (clockAt 1000) (anaSample (Some (Finite 88000)) None),
                         Completes 0,
                         Arrives (clockAt 1001) (anaSample (Some (Finite 95000)) None),
                         Completes 1] emptyTracker
    in fst (snd r) = [(0, Updated), (1, NotBetter)]
       \<and> storedLap (snd (snd r)) ''Cup A'' ''Ana'' = Some (Finite 88000))"
  by code_simp

section \<open>Properties of the event store\<close>

lemma saveEventData_fields [simp]:
  "heap (saveEventData now e r s) = heap s"
  "nextRef (saveEventData now e r s) = nextRef s"
  "eventCache (saveEventData now e r s) = (eventCache s)(e \<mapsto> r)"
  "lastProcessedLap (saveEventData now e r s) = lastProcessedLap s"
  "disk (saveEventData now e r s) = disk s"
  "fsWrites (saveEventData now e r s) = fsWrites s"
  "writing (saveEventData now e r s) = writing s"
  by (simp_all add: saveEventData_def setTimeout_def clearTimeout_def Let_def split: option.splits)

text \<open>After \<open>saveEventData\<close> the cache has the table: \<open>loadEventData\<close> returns it at
  the call, without a read of the file.\<close>

lemma saveEventData_then_load:
  "loadEventData_start e (saveEventData now e r s) = Resident r"
  "loadEventData_done e (Resident r) (saveEventData now e r s) = (Some r, saveEventData now e r s)"
  by (simp_all add: loadEventData_start_def loadEventData_done_def)


lemma saveEventData_pending:
  "pendingWrites (saveEventData now e r s) = (pendingWrites s)(sanitizeEventName e \<mapsto> nextTimer s)"
  by (simp add: saveEventData_def setTimeout_def clearTimeout_def Let_def split: option.splits)

text \<open>A callback that nothing interrupts, field by field.\<close>

lemma fireTimer_fields [simp]:
  "heap (fireTimer b x s) = heap s"
  "nextRef (fireTimer b x s) = nextRef s"
  "eventCache (fireTimer b x s) = eventCache s"
  "nextTimer (fireTimer b x s) = nextTimer s"
  "lastProcessedLap (fireTimer b x s) = lastProcessedLap s"
  "timers (fireTimer b x s) = filter (\<lambda>(i, tm). i \<noteq> fst x) (timers s)"
  "fsWrites (fireTimer b x s) = fsWrites s @ [(filename (snd x), heap s (dataRef (snd x)))]"
  by (simp_all add: fireTimer_def timerFires_def directoryReady_def writeSettles_def Let_def)

lemma fireTimer_pending:
  "pendingWrites (fireTimer b x s) f =
     (if b \<and> filename (snd x) = f then None else pendingWrites s f)"
  by (simp add: fireTimer_def timerFires_def directoryReady_def writeSettles_def Let_def)

lemma fireTimer_disk:
  "disk (fireTimer b x s) f =
     (if b \<and> filename (snd x) = f then Some (viaJSON (heap s (dataRef (snd x)))) else disk s f)"
  by (simp add: fireTimer_def timerFires_def directoryReady_def writeSettles_def Let_def)

lemma fold_heap [simp]: "heap (foldl (\<lambda>s x. fireTimer (ok (fst x)) x s) s L) = heap s"
  by (induction L arbitrary: s) auto

lemma fold_cache [simp]: "eventCache (foldl (\<lambda>s x. fireTimer (ok (fst x)) x s) s L) = eventCache s"
  by (induction L arbitrary: s) auto



lemma runTimers_fields [simp]:
  "heap (runTimers ok t s) = heap s"
  "eventCache (runTimers ok t s) = eventCache s"
  by (simp_all add: runTimers_def)

text \<open>
  No part of a timer callback reads or writes the cache: each of the three parts gives
  the same state whether the cache is changed before it or after it, so an invalidation
  may come between any two of them.
\<close>

lemma callback_parts_cache_update:
  "timerFires x (s\<lparr>eventCache := c\<rparr>) = (timerFires x s)\<lparr>eventCache := c\<rparr>"
  "directoryReady tid (s\<lparr>eventCache := c\<rparr>) = (directoryReady tid s)\<lparr>eventCache := c\<rparr>"
  "writeSettles b tid (s\<lparr>eventCache := c\<rparr>) = (writeSettles b tid s)\<lparr>eventCache := c\<rparr>"
  by (simp_all add: timerFires_def directoryReady_def writeSettles_def Let_def
        split: option.splits prod.splits)

lemma callback_parts_invalidate:
  "timerFires x (invalidateCache a s) = invalidateCache a (timerFires x s)"
  "directoryReady tid (invalidateCache a s) = invalidateCache a (directoryReady tid s)"
  "writeSettles b tid (invalidateCache a s) = invalidateCache a (writeSettles b tid s)"
  by (simp_all add: invalidateCache_def callback_parts_cache_update
        timerFires_def directoryReady_def writeSettles_def Let_def
        split: option.splits prod.splits)





text \<open>
  Claim C7. Updates of one event that each come within the quiet period of the one
  before should give exactly one disk write, with the data of the last one, the pending
  timer being cancelled and replaced at each update. The callback of a timer awaits
  \<open>mkdir\<close> and \<open>writeFile\<close> and then runs \<open>pendingWrites.delete(filename)\<close>, which
  removes the entry of the file whatever id it holds. An update at 0 arms timer 0, which
  fires at 5000. While its write is in flight an update at 5001 arms timer 1 and records
  it; the write ends and deletes that entry; the update at 5004 finds no entry, cancels
  nothing and arms timer 2. Timer 1 is still armed when timer 2 is, and the two updates,
  3 ms apart, are written twice: the file is written once for the update at 0 and twice
  more after it.
\<close>

theorem write_in_flight_breaks_debounce:
  "firstTimer \<in> set (dueTimers 5000 (saveEventData 0 ''Cup A'' 0 twoTables))
   \<and> sanitizeEventName ''Cup A'' = ''cup-a''
   \<and> (5004::int) - 5001 < WRITE_DEBOUNCE_MS
   \<and> map fst (fsWrites burstStart) = [''cup-a'']
   \<and> map fst (timers burstStart) = []
   \<and> pendingWrites burstStart ''cup-a'' = Some 0
   \<and> map fst (timers (saveEventData 5001 ''Cup A'' 0 burstStart)) = [1]
   \<and> pendingWrites (saveEventData 5001 ''Cup A'' 0 burstStart) ''cup-a'' = Some 1
   \<and> pendingWrites (writeSettles True 0 (saveEventData 5001 ''Cup A'' 0 burstStart)) ''cup-a'' = None
   \<and> map fst (timers burstEnd) = [1, 2]
   \<and> map (\<lambda>x. due (snd x)) (timers burstEnd) = [10001, 10004]
   \<and> map (\<lambda>x. filename (snd x)) (timers burstEnd) = [''cup-a'', ''cup-a'']
   \<and> map fst (fsWrites burstEnd) = [''cup-a'']
   \<and> map fst (fsWrites burstWritten) = [''cup-a'', ''cup-a'', ''cup-a'']
   \<and> timers burstWritten = []"
proof -
  have 1: "firstTimer \<in> set (dueTimers 5000 (saveEventData 0 ''Cup A'' 0 twoTables))"
    by code_simp
  have 2: "sanitizeEventName ''Cup A'' = ''cup-a''" by code_simp
  have 3: "(5004::int) - 5001 < WRITE_DEBOUNCE_MS" by (simp add: WRITE_DEBOUNCE_MS_def)
  have 4: "map fst (fsWrites burstStart) = [''cup-a'']" by code_simp
  have 5: "map fst (timers burstStart) = []" by code_simp
  have 6: "pendingWrites burstStart ''cup-a'' = Some 0" by code_simp
  have 7: "map fst (timers (saveEventData 5001 ''Cup A'' 0 burstStart)) = [1]" by code_simp
  have 8: "pendingWrites (saveEventData 5001 ''Cup A'' 0 burstStart) ''cup-a'' = Some 1"
    by code_simp
  have 9: "pendingWrites (writeSettles True 0 (saveEventData 5001 ''Cup A'' 0 burstStart)) ''cup-a'' = None"
    by code_simp
  have 10: "map fst (timers burstEnd) = [1, 2]" by code_simp
  have 11: "map (\<lambda>x. due (snd x)) (timers burstEnd) = [10001, 10004]" by code_simp
  have 12: "map (\<lambda>x. filename (snd x)) (timers burstEnd) = [''cup-a'', ''cup-a'']" by code_simp
  have 13: "map fst (fsWrites burstEnd) = [''cup-a'']" by code_simp
  have 14: "map fst (fsWrites burstWritten) = [''cup-a'', ''cup-a'', ''cup-a'']" by code_simp
  have 15: "timers burstWritten = []" by code_simp
  from 1 2 3 4 5 6 7 8 9 10 11 12 13 14 15 show ?thesis by blast
qed

text \<open>The same burst when no write is in flight, with two different tables: the first
  timer of the burst is cancelled and there is one write, with the table of the last
  update.\<close>

lemma quiet_burst_one_write:
  "(let s = saveEventData 5004 ''Cup A'' 0 (saveEventData 5001 ''Cup A'' 1 twoTables)
    in map fst (timers s) = [1]
       \<and> map (\<lambda>w. lastUpdated (snd w)) (fsWrites (runTimers (\<lambda>i. True) 11000 s)) = [''created''])"
  by code_simp

text \<open>
  The same three updates as calls of \<open>processBestLap\<close>: laps of 90000, 89000 and 88000
  of one pilot, each accepted. The table is one object that every call writes in place,
  so the two writes after the first both hold the last lap.
\<close>

lemma three_laps_three_writes:
  "(let s0 = snd (processBestLap (clockAt 0) (anaSample (Some (Finite 90000)) None) emptyTracker);
        s1 = directoryReady 0 (timerFires firstTimer s0);
        s2 = snd (processBestLap (clockAt 5001) (anaSample (Some (Finite 89000)) None) s1);
        s3 = writeSettles True 0 s2;
        s4 = snd (processBestLap (clockAt 5004) (anaSample (Some (Finite 88000)) None) s3);
        s5 = runTimers (\<lambda>i. True) 11000 s4
    in firstTimer \<in> set (dueTimers 5000 s0)
       \<and> map fst (timers s4) = [1, 2]
       \<and> map (\<lambda>w. (fst w, map_option bestLapTime (pilots (snd w) ''Ana''))) (fsWrites s5) =
           [(''cup-a'', Some (Some (Finite 90000))), (''cup-a'', Some (Some (Finite 88000))),
            (''cup-a'', Some (Some (Finite 88000)))])"
  by code_simp



section \<open>Properties of the broadcast\<close>

lemma sendToClient_result:
  "sendToClient now payload c acc =
     Inr (afterSend now payload c,
          fst acc + (if isOpenOutput c \<and> sendError (ws c) = None then 1 else 0),
          snd acc @ sendFailures [(k, c)])"
  by (cases "sendError (ws c)")
     (simp_all add: sendToClient_def send_def afterSend_def isOpenOutput_def sendFailures_def)

lemma sendFailures_Cons: "sendFailures (kc # cs) = sendFailures [kc] @ sendFailures cs"
  by (simp add: sendFailures_def)

lemma forEach_sendToClient:
  "forEachClient (sendToClient now payload) cs acc =
     Inr (map (\<lambda>kc. (fst kc, afterSend now payload (snd kc))) cs,
          fst acc + length (filter (\<lambda>kc. isOpenOutput (snd kc) \<and> sendError (ws (snd kc)) = None) cs),
          snd acc @ sendFailures cs)"
proof (induction cs arbitrary: acc)
  case Nil
  show ?case by (simp add: sendFailures_def)
next
  case (Cons kc cs)
  have f: "sendFailures (kc # cs) = sendFailures [(fst kc, snd kc)] @ sendFailures cs"
    using sendFailures_Cons[of kc cs] by simp
  have step: "sendToClient now payload (snd kc) acc =
     Inr (afterSend now payload (snd kc),
          fst acc + (if isOpenOutput (snd kc) \<and> sendError (ws (snd kc)) = None then 1 else 0),
          snd acc @ sendFailures [(fst kc, snd kc)])"
    by (rule sendToClient_result)
  show ?case
    unfolding forEachClient.simps step by (simp add: Cons.IH f)
qed

lemma broadcast_result:
  "broadcastToOutputs stringify isoNow now data m =
     Inr (m\<lparr>clients := map (\<lambda>kc. (fst kc, afterSend now (payloadOf stringify isoNow data) (snd kc))) (clients m),
            messageCount := messageCount m + 1\<rparr>,
          sendFailures (clients m) @
          [Distributed (simNum data)
             (length (filter (\<lambda>kc. isOpenOutput (snd kc) \<and> sendError (ws (snd kc)) = None) (clients m)))])"
  by (simp add: broadcastToOutputs_def payloadOf_def forEach_sendToClient Let_def)


text \<open>
  Claim C5. Whatever clients are registered, also none, a call of \<open>broadcastToOutputs\<close>
  builds one payload (the sample with type \<open>simulator-update\<close> and one time stamp,
  serialized once) and calls \<open>send\<close> with it on every client of type output whose socket
  is \<open>OPEN\<close>: where \<open>send\<close> returns, the payload is what the socket got last; where it
  throws, the failure is in the log under the client's id. No other client is touched, and
  \<open>messageCount\<close>, which \<open>getStats\<close> reports as \<open>totalMessages\<close>, grows by exactly 1.
\<close>

theorem broadcastToOutputs_delivers:
  "\<exists>m' lg. broadcastToOutputs stringify isoNow now data m = Inr (m', lg)
      \<and> map fst (clients m') = map fst (clients m)
      \<and> (\<forall>i < length (clients m).
            (isOpenOutput (snd (clients m ! i)) \<and> sendError (ws (snd (clients m ! i))) = None \<longrightarrow>
               sent (ws (snd (clients m' ! i))) =
                 sent (ws (snd (clients m ! i))) @ [payloadOf stringify isoNow data])
          \<and> (\<forall>err. isOpenOutput (snd (clients m ! i)) \<and> sendError (ws (snd (clients m ! i))) = Some err \<longrightarrow>
               SendFailed (cid (snd (clients m ! i))) err \<in> set lg)
          \<and> (\<not> isOpenOutput (snd (clients m ! i)) \<longrightarrow> clients m' ! i = clients m ! i))
      \<and> messageCount m' = messageCount m + 1
      \<and> totalMessages (getStats t m') = totalMessages (getStats t m) + 1"
proof -
  let ?p = "payloadOf stringify isoNow data"
  let ?m' = "m\<lparr>clients := map (\<lambda>kc. (fst kc, afterSend now ?p (snd kc))) (clients m),
                messageCount := messageCount m + 1\<rparr>"
  let ?lg = "sendFailures (clients m) @
          [Distributed (simNum data)
             (length (filter (\<lambda>kc. isOpenOutput (snd kc) \<and> sendError (ws (snd kc)) = None) (clients m)))]"
  have r: "broadcastToOutputs stringify isoNow now data m = Inr (?m', ?lg)"
    by (rule broadcast_result)
  have k: "map fst (clients ?m') = map fst (clients m)" by (simp add: comp_def)
  have c: "messageCount ?m' = messageCount m + 1" by simp
  have s: "totalMessages (getStats t ?m') = totalMessages (getStats t m) + 1"
    by (simp add: getStats_def Let_def)
  have e: "(isOpenOutput (snd (clients m ! i)) \<and> sendError (ws (snd (clients m ! i))) = None \<longrightarrow>
               sent (ws (snd (clients ?m' ! i))) = sent (ws (snd (clients m ! i))) @ [?p])
          \<and> (\<forall>err. isOpenOutput (snd (clients m ! i)) \<and> sendError (ws (snd (clients m ! i))) = Some err \<longrightarrow>
               SendFailed (cid (snd (clients m ! i))) err \<in> set ?lg)
          \<and> (\<not> isOpenOutput (snd (clients m ! i)) \<longrightarrow> clients ?m' ! i = clients m ! i)"
    if "i < length (clients m)" for i
  proof -
    from that have mem: "clients m ! i \<in> set (clients m)" by simp
    have "SendFailed (cid (snd (clients m ! i))) err \<in> set (sendFailures (clients m))"
      if "isOpenOutput (snd (clients m ! i))" "sendError (ws (snd (clients m ! i))) = Some err" for err
      unfolding sendFailures_def using mem that by (auto intro!: bexI[of _ "clients m ! i"])
    with that show ?thesis by (simp add: afterSend_def)
  qed
  from r k c s e show ?thesis by blast
qed


text \<open>The claim for the manager with five clients and for a manager with none.\<close>

theorem broadcastToOutputs_delivers_witness:
  "(\<exists>m' lg. broadcastToOutputs demoStringify ''12:00'' 5 (anaSample None None) demoManager = Inr (m', lg)
      \<and> sent (ws (snd (clients m' ! 0))) = [''simulator-update|Ana|12:00'']
      \<and> sent (ws (snd (clients m' ! 4))) = [''simulator-update|Ana|12:00'']
      \<and> messageCount m' = 8)
   \<and> (\<exists>m' lg. broadcastToOutputs demoStringify ''12:00'' 5 (anaSample None None) noClients = Inr (m', lg)
      \<and> messageCount m' = 1)"
proof -
  have p: "payloadOf demoStringify ''12:00'' (anaSample None None) = ''simulator-update|Ana|12:00''"
    by (simp add: payloadOf_def demoStringify_def anaSample_def)
  have l: "length (clients demoManager) = 5" by (simp add: demoManager_def)
  have a: "isOpenOutput (snd (clients demoManager ! 0)) \<and> sendError (ws (snd (clients demoManager ! 0))) = None"
    "sent (ws (snd (clients demoManager ! 0))) = []"
    by (simp_all add: demoManager_def demoClient_def isOpenOutput_def)
  have e: "isOpenOutput (snd (clients demoManager ! 4)) \<and> sendError (ws (snd (clients demoManager ! 4))) = None"
    "sent (ws (snd (clients demoManager ! 4))) = []"
    by (simp_all add: demoManager_def demoClient_def isOpenOutput_def)
  from broadcastToOutputs_delivers[of demoStringify "''12:00''" 5 "anaSample None None" demoManager 0]
  obtain m' lg where r: "broadcastToOutputs demoStringify ''12:00'' 5 (anaSample None None) demoManager = Inr (m', lg)"
    and d: "\<forall>i < length (clients demoManager).
            (isOpenOutput (snd (clients demoManager ! i)) \<and> sendError (ws (snd (clients demoManager ! i))) = None \<longrightarrow>
               sent (ws (snd (clients m' ! i))) =
                 sent (ws (snd (clients demoManager ! i))) @ [payloadOf demoStringify ''12:00'' (anaSample None None)])"
    and c: "messageCount m' = messageCount demoManager + 1"
    by blast
  from d[rule_format, of 0] l a p
  have s0: "sent (ws (snd (clients m' ! 0))) = [''simulator-update|Ana|12:00'']" by simp
  from d[rule_format, of 4] l e p
  have s4: "sent (ws (snd (clients m' ! 4))) = [''simulator-update|Ana|12:00'']" by simp
  from c have c8: "messageCount m' = 8" by (simp add: demoManager_def)
  from broadcastToOutputs_delivers[of demoStringify "''12:00''" 5 "anaSample None None" noClients 0]
  obtain m0 lg0 where r0: "broadcastToOutputs demoStringify ''12:00'' 5 (anaSample None None) noClients = Inr (m0, lg0)"
    and c0: "messageCount m0 = messageCount noClients + 1"
    by blast
  from c0 have c1: "messageCount m0 = 1" by (simp add: noClients_def)
  from r s0 s4 c8 r0 c1 show ?thesis by blast
qed

text \<open>
  Claim C6. \<open>broadcastToOutputs\<close> never throws. Where \<open>send\<close> throws for a consumer,
  the exception is caught and logged with this consumer's id, one line for each failure, and
  the consumer is left as it was; every other open consumer, before or after it in the
  registry, gets the payload.
\<close>

theorem broadcastToOutputs_never_throws:
  "(\<forall>err. broadcastToOutputs stringify isoNow now data m \<noteq> Inl err)
   \<and> (\<forall>m' lg. broadcastToOutputs stringify isoNow now data m = Inr (m', lg) \<longrightarrow>
        length (clients m') = length (clients m)
        \<and> lg = sendFailures (clients m) @
                [Distributed (simNum data)
                   (length (filter (\<lambda>kc. isOpenOutput (snd kc) \<and> sendError (ws (snd kc)) = None)
                      (clients m)))]
        \<and> (\<forall>i < length (clients m). isOpenOutput (snd (clients m ! i)) \<longrightarrow>
              (case sendError (ws (snd (clients m ! i))) of
                 Some err \<Rightarrow>
                   SendFailed (cid (snd (clients m ! i))) err \<in> set lg
                   \<and> clients m' ! i = clients m ! i
               | None \<Rightarrow>
                   sent (ws (snd (clients m' ! i))) =
                     sent (ws (snd (clients m ! i))) @ [payloadOf stringify isoNow data]
                   \<and> lastActivity (snd (clients m' ! i)) = Some now)))"
proof (intro conjI allI impI)
  show "broadcastToOutputs stringify isoNow now data m \<noteq> Inl err" for err
    by (simp add: broadcast_result)
next
  fix m' lg
  assume "broadcastToOutputs stringify isoNow now data m = Inr (m', lg)"
  then have m': "m' = m\<lparr>clients := map (\<lambda>kc. (fst kc, afterSend now (payloadOf stringify isoNow data) (snd kc))) (clients m),
                messageCount := messageCount m + 1\<rparr>"
    and lg: "lg = sendFailures (clients m) @
                [Distributed (simNum data)
                   (length (filter (\<lambda>kc. isOpenOutput (snd kc) \<and> sendError (ws (snd kc)) = None)
                      (clients m)))]"
    by (simp_all add: broadcast_result)
  show "length (clients m') = length (clients m)" by (simp add: m')
  show "lg = sendFailures (clients m) @
                [Distributed (simNum data)
                   (length (filter (\<lambda>kc. isOpenOutput (snd kc) \<and> sendError (ws (snd kc)) = None)
                      (clients m)))]" by (rule lg)
  fix i
  assume i: "i < length (clients m)" and o: "isOpenOutput (snd (clients m ! i))"
  from i have mem: "clients m ! i \<in> set (clients m)" by simp
  show "case sendError (ws (snd (clients m ! i))) of
                 Some err \<Rightarrow>
                   SendFailed (cid (snd (clients m ! i))) err \<in> set lg
                   \<and> clients m' ! i = clients m ! i
               | None \<Rightarrow>
                   sent (ws (snd (clients m' ! i))) =
                     sent (ws (snd (clients m ! i))) @ [payloadOf stringify isoNow data]
                   \<and> lastActivity (snd (clients m' ! i)) = Some now"
  proof (cases "sendError (ws (snd (clients m ! i)))")
    case None
    with i o show ?thesis by (simp add: m' afterSend_def)
  next
    case (Some err)
    have "SendFailed (cid (snd (clients m ! i))) err \<in> set (sendFailures (clients m))"
      unfolding sendFailures_def using mem o Some by (auto intro!: bexI[of _ "clients m ! i"])
    with i o Some show ?thesis by (simp add: m' lg afterSend_def)
  qed
qed

text \<open>The claim for the manager with five clients, where the second one fails.\<close>

theorem broadcastToOutputs_never_throws_witness:
  "\<exists>m'. broadcastToOutputs demoStringify ''12:00'' 5 (anaSample None None) demoManager =
           Inr (m', [SendFailed ''b'' ''EPIPE'', Distributed (Finite 1) 2])
        \<and> clients m' ! 1 = clients demoManager ! 1
        \<and> sent (ws (snd (clients m' ! 4))) = [''simulator-update|Ana|12:00'']"
proof -
  have p: "payloadOf demoStringify ''12:00'' (anaSample None None) = ''simulator-update|Ana|12:00''"
    by (simp add: payloadOf_def demoStringify_def anaSample_def)
  obtain m' lg where r: "broadcastToOutputs demoStringify ''12:00'' 5 (anaSample None None) demoManager = Inr (m', lg)"
    using broadcastToOutputs_never_throws[of demoStringify "''12:00''" 5 "anaSample None None" demoManager]
    by (cases "broadcastToOutputs demoStringify ''12:00'' 5 (anaSample None None) demoManager") auto
  from broadcastToOutputs_never_throws[of demoStringify "''12:00''" 5 "anaSample None None" demoManager] r
  have lg: "lg = sendFailures (clients demoManager) @
                [Distributed (simNum (anaSample None None))
                   (length (filter (\<lambda>kc. isOpenOutput (snd kc) \<and> sendError (ws (snd kc)) = None)
                      (clients demoManager)))]"
    and each: "\<forall>i < length (clients demoManager). isOpenOutput (snd (clients demoManager ! i)) \<longrightarrow>
              (case sendError (ws (snd (clients demoManager ! i))) of
                 Some err \<Rightarrow>
                   SendFailed (cid (snd (clients demoManager ! i))) err \<in> set lg
                   \<and> clients m' ! i = clients demoManager ! i
               | None \<Rightarrow>
                   sent (ws (snd (clients m' ! i))) =
                     sent (ws (snd (clients demoManager ! i))) @ [payloadOf demoStringify ''12:00'' (anaSample None None)]
                   \<and> lastActivity (snd (clients m' ! i)) = Some 5)"
    by blast+
  have lg': "lg = [SendFailed ''b'' ''EPIPE'', Distributed (Finite 1) 2]"
    unfolding lg
    by (simp add: sendFailures_def demoManager_def demoClient_def isOpenOutput_def anaSample_def)
  have l: "length (clients demoManager) = 5" by (simp add: demoManager_def)
  have b: "isOpenOutput (snd (clients demoManager ! 1))" "sendError (ws (snd (clients demoManager ! 1))) = Some ''EPIPE''"
    by (simp_all add: demoManager_def demoClient_def isOpenOutput_def)
  have e: "isOpenOutput (snd (clients demoManager ! 4))" "sendError (ws (snd (clients demoManager ! 4))) = None"
    "sent (ws (snd (clients demoManager ! 4))) = []"
    by (simp_all add: demoManager_def demoClient_def isOpenOutput_def)
  from each[rule_format, of 1] l b have c1: "clients m' ! 1 = clients demoManager ! 1" by simp
  from each[rule_format, of 4] l e p
  have c4: "sent (ws (snd (clients m' ! 4))) = [''simulator-update|Ana|12:00'']" by simp
  from r lg' c1 c4 show ?thesis by blast
qed


section \<open>Properties of the handler of producer messages\<close>

lemma validate_object: "validateSimulatorData d \<Longrightarrow> \<exists>ds. d = JObj ds"
  by (cases d) (auto simp: validateSimulatorData_def jsonMember_def)

text \<open>A well-formed sample is relayed: it is handed to \<open>setSimulatorId\<close>,
  \<open>processBestLap\<close> and \<open>broadcastToOutputs\<close>, and nothing is sent to the producer.\<close>

lemma wellFormed_relayed:
  "wellFormedSample parsed \<Longrightarrow>
   \<exists>message data. parsed = Some message \<and> jsonMember message ''data'' = Some data \<and>
     onInputMessage sendThrows parsed =
       [SetSimulatorId (jsonMember data ''simNum''), ProcessBestLap data, BroadcastToOutputs data]"
  by (auto simp: wellFormedSample_def onInputMessage_def truthy_def
      split: option.splits json.splits)

text \<open>
  Claim C8. Every inbound message that is not a well-formed sample should be answered
  with an error acknowledgment. \<open>JSON.parse\<close> and the read of \<open>message.type\<close> stand
  inside the \<open>try\<close> of the listener, whose \<open>catch\<close> only logs: a message that is not
  JSON, and the JSON text \<open>null\<close> (on which the read throws a \<open>TypeError\<close>), are
  neither relayed nor answered. Nothing is sent to the producer.
\<close>

theorem unparseable_not_acknowledged:
  "\<not> wellFormedSample None \<and> onInputMessage False None = [LoggedError]
   \<and> \<not> wellFormedSample (Some JNull) \<and> onInputMessage False (Some JNull) = [LoggedError]"
  by (simp add: wellFormedSample_def onInputMessage_def)

text \<open>The claim read off for the two messages: no call of \<open>send\<close> on the producer's
  socket is among the effects.\<close>

theorem unparseable_not_acknowledged_witness:
  "(\<forall>v. SendToProducer v \<notin> set (onInputMessage False None))
   \<and> (\<forall>v. SendToProducer v \<notin> set (onInputMessage False (Some JNull)))"
  using unparseable_not_acknowledged by simp

text \<open>The other values that are no object, and the empty object, are answered: the
  number 0, a string, an array, \<open>true\<close> and \<open>{}\<close>.\<close>

lemma other_values_acknowledged:
  "v \<in> {JNum (Finite 0), JStr ''abc'', JArr [], JBool True, JObj []} \<Longrightarrow>
   \<not> wellFormedSample (Some v)
   \<and> onInputMessage False (Some v) = [LoggedWarn, SendToProducer (errorAck invalidFormat)]"
  by (auto simp: wellFormedSample_def onInputMessage_def reject_def jsonMember_def)

text \<open>
  Every message that is not a well-formed sample is kept from \<open>processBestLap\<close> and
  \<open>broadcastToOutputs\<close>. If it parses as JSON to a value other than \<open>null\<close>, the handler
  logs a warning and calls \<open>send\<close> on the producer's socket with
  \<open>{ type: "error", message: reason }\<close>, and does nothing else (but log the error when
  this \<open>send\<close> throws).
\<close>

lemma parsed_message_rejected:
  assumes "\<not> wellFormedSample parsed"
  shows "(\<forall>d. ProcessBestLap d \<notin> set (onInputMessage sendThrows parsed)
              \<and> BroadcastToOutputs d \<notin> set (onInputMessage sendThrows parsed))
       \<and> (parsed \<noteq> None \<and> parsed \<noteq> Some JNull \<longrightarrow>
            (\<exists>reason. onInputMessage sendThrows parsed =
               [LoggedWarn, SendToProducer (errorAck reason)]
               @ (if sendThrows then [LoggedError] else [])))"
proof (cases parsed)
  case None
  then show ?thesis by (simp add: onInputMessage_def)
next
  case (Some message)
  show ?thesis
  proof (cases "message = JNull")
    case True
    with Some show ?thesis by (simp add: onInputMessage_def)
  next
    case False
    have r: "\<exists>reason. onInputMessage sendThrows parsed = reject sendThrows reason"
    proof (cases "jsonMember message ''type'' \<noteq> Some (JStr ''simulator-update'')
             \<or> \<not> truthy (jsonMember message ''data'')")
      case True
      with Some False show ?thesis
        by (cases message) (auto simp: onInputMessage_def)
    next
      case ok: False
      then obtain data where d: "jsonMember message ''data'' = Some data"
        by (cases "jsonMember message ''data''") (auto simp: truthy_def)
      have "\<not> validateSimulatorData data"
      proof
        assume v: "validateSimulatorData data"
        then obtain ds where "data = JObj ds" using validate_object by blast
        with v d ok Some assms show False
          by (cases message) (auto simp: wellFormedSample_def jsonMember_def)
      qed
      with Some False ok d show ?thesis
        by (cases message) (auto simp: onInputMessage_def)
    qed
    then obtain reason where "onInputMessage sendThrows parsed = reject sendThrows reason" ..
    with Some False show ?thesis by (auto simp: reject_def)
  qed
qed


end
